theory Spec2Isabelle
  imports Main "HOL-Library.Log_Nat"
begin

section \<open>The view tree\<close>

text \<open>
  The script \<^verbatim>\<open>static/script.js\<close> works on the ambient \<^verbatim>\<open>document\<close>. The
  document is modelled as the list of its elements in tree order. An element carries the
  value of its \<^verbatim>\<open>id\<close> attribute (empty when it has none), its inline style (what
  \<^verbatim>\<open>el.style.prop = v\<close> stores, by property name), its \<^verbatim>\<open>onclick\<close> handler and
  every other attribute. An element reference is the position of the element in the list.

  The closures the script installs as handlers are first-order values: the script only
  ever builds \<^verbatim>\<open>() => openModal(c)\<close> for a constant \<^verbatim>\<open>c\<close>. A handler put there by
  other code of the page is \<open>Foreign\<close>.
\<close>

datatype handler = OpenModalClosure string | Foreign nat

record element =
  ident :: string
  style :: "string \<rightharpoonup> string"
  onclick :: "handler option"
  attrs :: "string \<rightharpoonup> string"

type_synonym document = "element list"

datatype error = TypeError

text \<open>
  \<^verbatim>\<open>document.getElementById(id)\<close>: the first element in tree order whose ID is
  \<^verbatim>\<open>id\<close>, or \<^verbatim>\<open>null\<close>. An element whose \<^verbatim>\<open>id\<close> attribute is missing or empty has no
  ID, so the empty string finds nothing.
\<close>

fun first_with_id :: "string \<Rightarrow> element list \<Rightarrow> nat option" where
  "first_with_id eid [] = None"
| "first_with_id eid (e # es) =
     (if ident e = eid then Some 0 else map_option Suc (first_with_id eid es))"

definition getElementById :: "string \<Rightarrow> document \<Rightarrow> nat option" where
  "getElementById eid doc = (if eid = [] then None else first_with_id eid doc)"

text \<open>
  \<^verbatim>\<open>el.style.prop = v\<close> on the element at position \<open>k\<close>. The style here is the
  record of what was assigned. The style of a page drops a value that its parser rejects
  (\<^verbatim>\<open>NaN%\<close>, \<^verbatim>\<open>-Infinity%\<close>, \<^verbatim>\<open>-100%\<close>) and keeps the previous one, so
  for such a value a recorded width is the string assigned, not the width the page shows.
\<close>

definition set_style :: "nat \<Rightarrow> string \<Rightarrow> string \<Rightarrow> document \<Rightarrow> document" where
  "set_style k prop v doc = doc[k := (doc ! k)\<lparr>style := (style (doc ! k))(prop \<mapsto> v)\<rparr>]"

text \<open>\<^verbatim>\<open>el.onclick = h\<close> on the element at position \<open>k\<close>.\<close>

definition set_onclick :: "nat \<Rightarrow> handler \<Rightarrow> document \<Rightarrow> document" where
  "set_onclick k h doc = doc[k := (doc ! k)\<lparr>onclick := Some h\<rparr>]"

section \<open>Dialogs\<close>

text \<open>
  \<^verbatim>\<open>function openModal(id) { document.getElementById(id).style.display = "flex"; }\<close>

  There is no test of the lookup's result: reading \<^verbatim>\<open>.style\<close> of \<^verbatim>\<open>null\<close> throws a
  TypeError.
\<close>

definition openModal :: "string \<Rightarrow> document \<Rightarrow> error + document" where
  "openModal eid doc =
     (case getElementById eid doc of
        None \<Rightarrow> Inl TypeError
      | Some k \<Rightarrow> Inr (set_style k ''display'' ''flex'' doc))"

text \<open>
  \<^verbatim>\<open>function closeModal(id) { document.getElementById(id).style.display = "none"; }\<close>
\<close>

definition closeModal :: "string \<Rightarrow> document \<Rightarrow> error + document" where
  "closeModal eid doc =
     (case getElementById eid doc of
        None \<Rightarrow> Inl TypeError
      | Some k \<Rightarrow> Inr (set_style k ''display'' ''none'' doc))"

text \<open>\<^verbatim>\<open>function showTerms() { openModal("termsModal"); }\<close>\<close>

definition showTerms :: "document \<Rightarrow> error + document" where
  "showTerms doc = openModal ''termsModal'' doc"

text \<open>
  The \<^verbatim>\<open>DOMContentLoaded\<close> listener: both lookups first, then one guarded assignment
  for each button that was found.
\<close>

definition onDOMContentLoaded :: "document \<Rightarrow> error + document" where
  "onDOMContentLoaded doc =
     (let loginBtn = getElementById ''loginBtn'' doc;
          signupBtn = getElementById ''signupBtn'' doc;
          doc1 = (case loginBtn of
                    None \<Rightarrow> doc
                  | Some k \<Rightarrow> set_onclick k (OpenModalClosure ''loginModal'') doc);
          doc2 = (case signupBtn of
                    None \<Rightarrow> doc1
                  | Some k \<Rightarrow> set_onclick k (OpenModalClosure ''signupModal'') doc1)
      in Inr doc2)"

text \<open>
  Activating an element runs its handler. What a foreign handler does is a parameter;
  an element with no handler does nothing.
\<close>

fun call_handler ::
  "(nat \<Rightarrow> document \<Rightarrow> error + document) \<Rightarrow> handler \<Rightarrow> document \<Rightarrow> error + document" where
  "call_handler ext (OpenModalClosure c) doc = openModal c doc"
| "call_handler ext (Foreign n) doc = ext n doc"

definition click ::
  "(nat \<Rightarrow> document \<Rightarrow> error + document) \<Rightarrow> nat \<Rightarrow> document \<Rightarrow> error + document" where
  "click ext k doc =
     (case onclick (doc ! k) of None \<Rightarrow> Inr doc | Some h \<Rightarrow> call_handler ext h doc)"

text \<open>A run of calls on one dialog, one statement after the other.\<close>

datatype modal_call = Open | Close

fun run_call :: "string \<Rightarrow> modal_call \<Rightarrow> document \<Rightarrow> error + document" where
  "run_call eid Open doc = openModal eid doc"
| "run_call eid Close doc = closeModal eid doc"

fun run_calls :: "string \<Rightarrow> modal_call list \<Rightarrow> document \<Rightarrow> error + document" where
  "run_calls eid [] doc = Inr doc"
| "run_calls eid (c # cs) doc =
     (case run_call eid c doc of Inl e \<Rightarrow> Inl e | Inr doc' \<Rightarrow> run_calls eid cs doc')"

section \<open>Numbers\<close>

text \<open>
  A JavaScript Number is an IEEE 754 double: NaN, the two infinities, the two zeros, and
  the finite values. \<open>Fin q\<close> is the finite value \<open>q\<close> (\<open>Fin 0\<close> is \<open>+0\<close>) and
  \<open>NegZero\<close> is \<open>-0\<close>. The arithmetic below rounds every result to the nearest double,
  ties to even, so an operation on doubles gives a double; the theorems hold for every
  value of the type.
\<close>

datatype number = NaN | PosInf | NegInf | NegZero | Fin rat

definition pow2 :: "int \<Rightarrow> rat" where
  "pow2 e = (if 0 \<le> e then 2 ^ nat e else 1 / 2 ^ nat (- e))"

text \<open>The exponent of the binade of a positive rational: \<open>2 ^ e \<le> q < 2 ^ (e + 1)\<close>.\<close>

definition floor_log2 :: "rat \<Rightarrow> int" where
  "floor_log2 q = (if 1 \<le> q then bitlen \<lfloor>q\<rfloor> - 1 else - bitlen (\<lceil>1 / q\<rceil> - 1))"

definition round_half_even :: "rat \<Rightarrow> int" where
  "round_half_even x =
     (let f = \<lfloor>x\<rfloor>; r = x - of_int f
      in if r < 1 / 2 then f else if 1 / 2 < r then f + 1 else if even f then f else f + 1)"

text \<open>
  The magnitude of the double nearest to a magnitude \<open>q\<close>: doubles of the binade \<open>e\<close>
  are the multiples of \<open>2 ^ (e - 52)\<close>, the subnormal ones the multiples of
  \<open>2 ^ (- 1074)\<close>; a result that reaches \<open>2 ^ 1024\<close> overflows (\<open>None\<close>).
\<close>

definition round_mag :: "rat \<Rightarrow> rat option" where
  "round_mag q =
     (if q = 0 then Some 0
      else let e = max (floor_log2 q) (- 1022);
               ulp = pow2 (e - 52);
               r = of_int (round_half_even (q / ulp)) * ulp
           in if 1024 \<le> floor_log2 r then None else Some r)"

definition is_negative :: "number \<Rightarrow> bool" where
  "is_negative x =
     (case x of NegInf \<Rightarrow> True | NegZero \<Rightarrow> True | Fin q \<Rightarrow> q < 0 | _ \<Rightarrow> False)"

definition is_infinite :: "number \<Rightarrow> bool" where
  "is_infinite x = (x = PosInf \<or> x = NegInf)"

definition is_zero :: "number \<Rightarrow> bool" where
  "is_zero x = (x = Fin 0 \<or> x = NegZero)"

definition magnitude :: "number \<Rightarrow> rat" where
  "magnitude x = (case x of Fin q \<Rightarrow> \<bar>q\<bar> | _ \<Rightarrow> 0)"

definition finite_value :: "number \<Rightarrow> rat" where
  "finite_value x = (case x of Fin q \<Rightarrow> q | _ \<Rightarrow> 0)"

definition signed_zero :: "bool \<Rightarrow> number" where
  "signed_zero neg = (if neg then NegZero else Fin 0)"

definition signed_inf :: "bool \<Rightarrow> number" where
  "signed_inf neg = (if neg then NegInf else PosInf)"

text \<open>The double for an exact result of sign \<open>neg\<close> and magnitude \<open>q\<close>.\<close>

definition round_double :: "bool \<Rightarrow> rat \<Rightarrow> number" where
  "round_double neg q =
     (case round_mag q of
        None \<Rightarrow> signed_inf neg
      | Some r \<Rightarrow> if r = 0 then signed_zero neg else Fin (if neg then - r else r))"

text \<open>\<^verbatim>\<open>x / y\<close> and \<^verbatim>\<open>x * y\<close> on Numbers.\<close>

definition js_div :: "number \<Rightarrow> number \<Rightarrow> number" where
  "js_div x y =
     (let neg = (is_negative x \<noteq> is_negative y)
      in if x = NaN \<or> y = NaN then NaN
         else if is_infinite x then (if is_infinite y then NaN else signed_inf neg)
         else if is_infinite y then signed_zero neg
         else if is_zero x then (if is_zero y then NaN else signed_zero neg)
         else if is_zero y then signed_inf neg
         else round_double neg (magnitude x / magnitude y))"

definition js_mul :: "number \<Rightarrow> number \<Rightarrow> number" where
  "js_mul x y =
     (let neg = (is_negative x \<noteq> is_negative y)
      in if x = NaN \<or> y = NaN then NaN
         else if is_infinite x then (if is_zero y then NaN else signed_inf neg)
         else if is_infinite y then (if is_zero x then NaN else signed_inf neg)
         else if is_zero x \<or> is_zero y then signed_zero neg
         else round_double neg (magnitude x * magnitude y))"

text \<open>
  \<^verbatim>\<open>x < y\<close>, \<^verbatim>\<open>x <= y\<close> and \<^verbatim>\<open>x === y\<close> on Numbers: false when an operand is
  NaN, and the two zeros compare equal.
\<close>

definition js_lt :: "number \<Rightarrow> number \<Rightarrow> bool" where
  "js_lt x y =
     (if x = NaN \<or> y = NaN then False
      else if x = PosInf then False
      else if y = PosInf then True
      else if y = NegInf then False
      else if x = NegInf then True
      else finite_value x < finite_value y)"

definition js_le :: "number \<Rightarrow> number \<Rightarrow> bool" where
  "js_le x y = (x \<noteq> NaN \<and> y \<noteq> NaN \<and> \<not> js_lt y x)"


text \<open>
  \<^verbatim>\<open>Math.min(...args)\<close>: start from \<open>+\<infinity>\<close> and go through the arguments; NaN wins,
  and \<open>-0\<close> is below \<open>+0\<close>.
\<close>

fun Math_min_from :: "number \<Rightarrow> number list \<Rightarrow> number" where
  "Math_min_from lowest [] = lowest"
| "Math_min_from lowest (x # xs) =
     (if x = NaN then NaN
      else Math_min_from
             (if (x = NegZero \<and> lowest = Fin 0) \<or> js_lt x lowest then x else lowest) xs)"

definition Math_min :: "number list \<Rightarrow> number" where
  "Math_min args = Math_min_from PosInf args"

subsection \<open>Number to string\<close>

text \<open>
  \<^verbatim>\<open>percentage + "%"\<close> converts the Number to a string: the shortest decimal digits
  \<open>s\<close> (\<open>k\<close> of them) and the exponent \<open>n\<close> with \<open>s * 10 ^ (n - k)\<close> rounding to the
  value, the closest such \<open>s\<close> when there are several; printed plainly when
  \<open>- 5 \<le> n \<le> 21\<close>, in exponent notation otherwise.
\<close>

definition digit_char :: "int \<Rightarrow> char" where
  "digit_char d = ''0123456789'' ! nat d"

function decimal :: "int \<Rightarrow> string" where
  "decimal n = (if n < 10 then [digit_char n] else decimal (n div 10) @ [digit_char (n mod 10)])"
  by pat_completeness auto
termination
  by (relation "measure nat") auto

definition pow10 :: "int \<Rightarrow> rat" where
  "pow10 e = (if 0 \<le> e then 10 ^ nat e else 1 / 10 ^ nat (- e))"

text \<open>The \<open>n\<close> with \<open>10 ^ (n - 1) \<le> x < 10 ^ n\<close>, for a positive \<open>x\<close>.\<close>

definition decimal_exponent :: "rat \<Rightarrow> int" where
  "decimal_exponent x =
     (let (a, b) = quotient_of x; d = int (length (decimal a)) - int (length (decimal b))
      in if pow10 d \<le> x then d + 1 else d)"

text \<open>
  The \<open>k\<close>-digit candidates are the two neighbours of \<open>x\<close> among the multiples of
  \<open>10 ^ (n - k)\<close>; one that rounds to \<open>x\<close> is taken, the closer one of two, the even one
  on a tie.
\<close>

definition candidate :: "rat \<Rightarrow> int \<Rightarrow> nat \<Rightarrow> int option" where
  "candidate x n k =
     (let scale = pow10 (n - int k);
          t = x / scale;
          lo = \<lfloor>t\<rfloor>;
          hi = lo + 1;
          ok_lo = (round_double False (of_int lo * scale) = Fin x);
          ok_hi = (round_double False (of_int hi * scale) = Fin x)
      in if ok_lo \<and> ok_hi
         then Some (if t - of_int lo < of_int hi - t then lo
                    else if of_int hi - t < t - of_int lo then hi
                    else if even lo then lo else hi)
         else if ok_lo then Some lo
         else if ok_hi then Some hi
         else None)"

text \<open>Seventeen digits identify every double, so the search stops there.\<close>

fun shortest :: "nat \<Rightarrow> nat \<Rightarrow> rat \<Rightarrow> int \<Rightarrow> int \<times> nat" where
  "shortest 0 k x n = (\<lfloor>x / pow10 (n - int k)\<rfloor>, k)"
| "shortest (Suc fuel) k x n =
     (case candidate x n k of
        Some s \<Rightarrow> (s, k)
      | None \<Rightarrow> shortest fuel (Suc k) x n)"

definition positive_to_string :: "rat \<Rightarrow> string" where
  "positive_to_string x =
     (let n0 = decimal_exponent x;
          (s0, k0) = shortest 17 1 x n0;
          (s, k, n) = (if s0 = 10 ^ k0 then (1, 1, n0 + 1) else (s0, k0, n0));
          ds = decimal s
      in if - 5 \<le> n \<and> n \<le> 21
         then (if int k \<le> n then ds @ replicate (nat (n - int k)) (CHR ''0'')
               else if 0 < n then take (nat n) ds @ ''.'' @ drop (nat n) ds
               else ''0.'' @ replicate (nat (- n)) (CHR ''0'') @ ds)
         else (let e = n - 1;
                   c = (if e < 0 then ''-'' else ''+'');
                   es = decimal \<bar>e\<bar>
               in if k = 1 then ds @ ''e'' @ c @ es
                  else take 1 ds @ ''.'' @ drop 1 ds @ ''e'' @ c @ es))"

definition number_to_string :: "number \<Rightarrow> string" where
  "number_to_string x =
     (case x of
        NaN \<Rightarrow> ''NaN''
      | PosInf \<Rightarrow> ''Infinity''
      | NegInf \<Rightarrow> ''-Infinity''
      | NegZero \<Rightarrow> ''0''
      | Fin q \<Rightarrow> if q = 0 then ''0''
                 else if q < 0 then ''-'' @ positive_to_string (- q)
                 else positive_to_string q)"

section \<open>The usage bar\<close>

text \<open>
  \<^verbatim>\<open>const percentage = Math.min((current / total) * 100, 100);\<close>
\<close>

definition percentage :: "number \<Rightarrow> number \<Rightarrow> number" where
  "percentage current tot = Math_min [js_mul (js_div current tot) (Fin 100), Fin 100]"

text \<open>
  \<^verbatim>\<open>
  function updateUsageBar(current, total) {
    const usage = document.getElementById("usageBar");
    if (!usage) return;
    const percentage = Math.min((current / total) * 100, 100);
    usage.style.width = percentage + "%";
    if (percentage < 30) usage.style.backgroundColor = "#28a745";
    else if (percentage < 70) usage.style.backgroundColor = "#ffc107";
    else usage.style.backgroundColor = "#dc3545";
  }
  \<close>
  The two arguments are Numbers. The function returns nothing; the model returns the
  document it leaves behind. The style keeps the strings as the script assigns them
  (what a style sheet parser makes of a value like \<^verbatim>\<open>-100%\<close> is not the script's).
\<close>

definition updateUsageBar :: "number \<Rightarrow> number \<Rightarrow> document \<Rightarrow> error + document" where
  "updateUsageBar current tot doc =
     (case getElementById ''usageBar'' doc of
        None \<Rightarrow> Inr doc
      | Some usage \<Rightarrow>
          (let p = percentage current tot;
               doc1 = set_style usage ''width'' (number_to_string p @ ''%'') doc
           in if js_lt p (Fin 30)
              then Inr (set_style usage ''backgroundColor'' ''#28a745'' doc1)
              else if js_lt p (Fin 70)
              then Inr (set_style usage ''backgroundColor'' ''#ffc107'' doc1)
              else Inr (set_style usage ''backgroundColor'' ''#dc3545'' doc1)))"

text \<open>What a call leaves in the style of the usage bar.\<close>

definition style_of :: "string \<Rightarrow> string \<Rightarrow> document \<Rightarrow> string option" where
  "style_of eid prop doc =
     (case getElementById eid doc of None \<Rightarrow> None | Some k \<Rightarrow> style (doc ! k) prop)"

definition usage_style :: "string \<Rightarrow> number \<Rightarrow> number \<Rightarrow> document \<Rightarrow> string option" where
  "usage_style prop current tot doc =
     (case updateUsageBar current tot doc of
        Inl e \<Rightarrow> None
      | Inr doc' \<Rightarrow> style_of ''usageBar'' prop doc')"

section \<open>Calls and pages used in the statements\<close>

text \<open>A run of calls leaves the \<^verbatim>\<open>display\<close> value of its last call.\<close>

fun display_value :: "modal_call \<Rightarrow> string" where
  "display_value Open = ''flex''"
| "display_value Close = ''none''"

text \<open>The colour the \<^verbatim>\<open>if\<close> chain of \<^verbatim>\<open>updateUsageBar\<close> assigns.\<close>

definition tier_color :: "number \<Rightarrow> string" where
  "tier_color p =
     (if js_lt p (Fin 30) then ''#28a745'' else if js_lt p (Fin 70) then ''#ffc107'' else ''#dc3545'')"

text \<open>
  The string that \<^verbatim>\<open>usage.style.width = percentage + "%"\<close> assigns.
\<close>

definition assigned_width :: "number \<Rightarrow> number \<Rightarrow> string" where
  "assigned_width current tot = number_to_string (percentage current tot) @ ''%''"

text \<open>
  Three small pages: one with the login button and its dialog, one with the signup button
  and no dialog, one with the usage bar.
\<close>

definition login_page :: document where
  "login_page =
     [\<lparr>ident = ''loginBtn'', style = Map.empty, onclick = None, attrs = Map.empty\<rparr>,
      \<lparr>ident = ''loginModal'', style = [''display'' \<mapsto> ''none''], onclick = None,
        attrs = Map.empty\<rparr>]"

definition signup_page :: document where
  "signup_page =
     [\<lparr>ident = ''signupBtn'', style = Map.empty, onclick = Some (Foreign 7),
        attrs = Map.empty\<rparr>]"

definition usage_page :: document where
  "usage_page =
     [\<lparr>ident = ''loginBtn'', style = Map.empty, onclick = Some (Foreign 0), attrs = Map.empty\<rparr>,
      \<lparr>ident = ''usageBar'', style = [''height'' \<mapsto> ''8px''], onclick = None,
        attrs = [''class'' \<mapsto> ''bar'']\<rparr>]"

section \<open>Lookup and update\<close>

lemma first_with_id_bound: "first_with_id eid doc = Some k \<Longrightarrow> k < length doc"
  by (induction doc arbitrary: k) (auto split: if_splits)

lemma first_with_id_ident: "first_with_id eid doc = Some k \<Longrightarrow> ident (doc ! k) = eid"
  by (induction doc arbitrary: k) (auto split: if_splits)

lemma first_with_id_cong:
  "map ident doc' = map ident doc \<Longrightarrow> first_with_id eid doc' = first_with_id eid doc"
proof (induction doc arbitrary: doc')
  case Nil
  then show ?case by simp
next
  case (Cons e es)
  from Cons.prems obtain e' es'
    where d: "doc' = e' # es'" and i: "ident e' = ident e"
      and m: "map ident es' = map ident es"
    by (cases doc') auto
  have "first_with_id eid es' = first_with_id eid es"
    by (rule Cons.IH [OF m])
  then show ?case by (simp add: d i)
qed

lemma getElementById_bound: "getElementById eid doc = Some k \<Longrightarrow> k < length doc"
  by (auto simp: getElementById_def split: if_splits dest: first_with_id_bound)

lemma getElementById_ident: "getElementById eid doc = Some k \<Longrightarrow> ident (doc ! k) = eid"
  by (auto simp: getElementById_def split: if_splits dest: first_with_id_ident)

lemma map_ident_set_style: "map ident (set_style k p v doc) = map ident doc"
  by (cases "k < length doc")
    (simp_all add: set_style_def map_update list_update_beyond list_update_same_conv)

lemma map_ident_set_onclick: "map ident (set_onclick k h doc) = map ident doc"
  by (cases "k < length doc")
    (simp_all add: set_onclick_def map_update list_update_beyond list_update_same_conv)

lemma getElementById_set_style [simp]:
  "getElementById eid (set_style k p v doc) = getElementById eid doc"
  by (simp add: getElementById_def first_with_id_cong [OF map_ident_set_style])

lemma getElementById_set_onclick [simp]:
  "getElementById eid (set_onclick k h doc) = getElementById eid doc"
  by (simp add: getElementById_def first_with_id_cong [OF map_ident_set_onclick])

lemma set_style_twice [simp]:
  "set_style k p v (set_style k p w doc) = set_style k p v doc"
  by (cases "k < length doc") (simp_all add: set_style_def list_update_beyond)

lemma length_set_style [simp]: "length (set_style k p v doc) = length doc"
  by (simp add: set_style_def)

lemma nth_set_style_other: "j \<noteq> k \<Longrightarrow> set_style k p v doc ! j = doc ! j"
  by (simp add: set_style_def)

lemma nth_set_style_same:
  "k < length doc \<Longrightarrow> set_style k p v doc ! k = (doc ! k)\<lparr>style := (style (doc ! k))(p \<mapsto> v)\<rparr>"
  by (simp add: set_style_def)

lemma length_set_onclick [simp]: "length (set_onclick k h doc) = length doc"
  by (simp add: set_onclick_def)

lemma nth_set_onclick_other: "j \<noteq> k \<Longrightarrow> set_onclick k h doc ! j = doc ! j"
  by (simp add: set_onclick_def)

lemma nth_set_onclick_same:
  "k < length doc \<Longrightarrow> set_onclick k h doc ! k = (doc ! k)\<lparr>onclick := Some h\<rparr>"
  by (simp add: set_onclick_def)

lemma style_of_set_style:
  "getElementById eid doc = Some k \<Longrightarrow> style_of eid p (set_style k p v doc) = Some v"
  by (simp add: style_of_def nth_set_style_same getElementById_bound)

section \<open>Dialogs: missing elements\<close>

lemma openModal_missing:
  "getElementById eid doc = None \<Longrightarrow> openModal eid doc = Inl TypeError"
  by (simp add: openModal_def)

lemma closeModal_missing:
  "getElementById eid doc = None \<Longrightarrow> closeModal eid doc = Inl TypeError"
  by (simp add: closeModal_def)

text \<open>
  C1. The claim: for a dialog identifier with no element in the view tree, neither
  \<open>openModal\<close> nor \<open>closeModal\<close> raises. The code raises: on the empty document, and on a
  document whose only element has another ID, both calls end in a TypeError. So does
  \<open>showTerms\<close> on a page with no terms dialog, and so does the click on the signup button
  of a page that has the button and no signup dialog.
\<close>

theorem openModal_closeModal_missing_raise:
  "openModal ''loginModal'' [] = Inl TypeError
   \<and> closeModal ''loginModal'' [] = Inl TypeError
   \<and> getElementById ''loginModal'' usage_page = None
   \<and> openModal ''loginModal'' usage_page = Inl TypeError
   \<and> closeModal ''loginModal'' usage_page = Inl TypeError
   \<and> showTerms usage_page = Inl TypeError
   \<and> (\<exists>d. onDOMContentLoaded signup_page = Inr d \<and> click (\<lambda>n d. Inr d) 0 d = Inl TypeError)"
  by (simp add: openModal_def closeModal_def showTerms_def getElementById_def usage_page_def
      signup_page_def onDOMContentLoaded_def set_onclick_def click_def)

text \<open>
  C5. \<open>showTerms\<close> and \<open>openModal\<close> at \<open>''termsModal''\<close> are the same function of the
  view tree, the error on a missing element included.
\<close>

theorem showTerms_eq_openModal: "showTerms = openModal ''termsModal''"
  by (rule ext) (simp add: showTerms_def)

section \<open>Dialogs: repeated calls\<close>

lemma run_call_found:
  "getElementById eid doc = Some k \<Longrightarrow>
   run_call eid c doc = Inr (set_style k ''display'' (display_value c) doc)"
  by (cases c) (simp_all add: openModal_def closeModal_def)

lemma run_calls_last:
  "getElementById eid doc = Some k \<Longrightarrow> cs \<noteq> [] \<Longrightarrow>
   run_calls eid cs doc = run_call eid (last cs) doc"
proof (induction cs arbitrary: doc)
  case Nil
  then show ?case by simp
next
  case (Cons c cs)
  let ?d = "set_style k ''display'' (display_value c) doc"
  have step: "run_call eid c doc = Inr ?d"
    by (rule run_call_found [OF Cons.prems(1)])
  show ?case
  proof (cases "cs = []")
    case True
    then show ?thesis by (simp add: step)
  next
    case False
    have found: "getElementById eid ?d = Some k"
      using Cons.prems(1) by simp
    have "run_calls eid cs ?d = run_call eid (last cs) ?d"
      by (rule Cons.IH [OF found False])
    also have "\<dots> = Inr (set_style k ''display'' (display_value (last cs)) ?d)"
      by (rule run_call_found [OF found])
    also have "\<dots> = run_call eid (last cs) doc"
      by (simp add: run_call_found [OF Cons.prems(1)])
    finally show ?thesis using False by (simp add: step)
  qed
qed

text \<open>
  C10. For a dialog whose element exists: \<open>openModal\<close> and \<open>closeModal\<close> are idempotent;
  a non-empty run of calls leaves the document that its last call alone leaves; closing
  after opening leaves \<^verbatim>\<open>display\<close> at \<^verbatim>\<open>none\<close>, opening after closing at
  \<^verbatim>\<open>flex\<close>.
\<close>

theorem modal_calls_idempotent_last_wins:
  assumes "getElementById eid doc = Some k"
  shows "(\<exists>d. openModal eid doc = Inr d \<and> openModal eid d = Inr d)
       \<and> (\<exists>d. closeModal eid doc = Inr d \<and> closeModal eid d = Inr d)
       \<and> (cs \<noteq> [] \<longrightarrow> run_calls eid cs doc = run_call eid (last cs) doc)
       \<and> (cs \<noteq> [] \<longrightarrow>
            (\<exists>d. run_calls eid cs doc = Inr d
                 \<and> style_of eid ''display'' d = Some (display_value (last cs))))
       \<and> (\<exists>d. run_calls eid [Open, Close] doc = Inr d \<and> style_of eid ''display'' d = Some ''none'')
       \<and> (\<exists>d. run_calls eid [Close, Open] doc = Inr d \<and> style_of eid ''display'' d = Some ''flex'')"
proof (intro conjI impI)
  show "\<exists>d. openModal eid doc = Inr d \<and> openModal eid d = Inr d"
    using assms by (simp add: openModal_def)
  show "\<exists>d. closeModal eid doc = Inr d \<and> closeModal eid d = Inr d"
    using assms by (simp add: closeModal_def)
  show "run_calls eid cs doc = run_call eid (last cs) doc" if "cs \<noteq> []"
    by (rule run_calls_last [OF assms that])
  show "\<exists>d. run_calls eid cs doc = Inr d
          \<and> style_of eid ''display'' d = Some (display_value (last cs))" if "cs \<noteq> []"
    using assms by (simp add: run_calls_last [OF assms that] run_call_found style_of_set_style)
  show "\<exists>d. run_calls eid [Open, Close] doc = Inr d \<and> style_of eid ''display'' d = Some ''none''"
    using assms by (simp add: openModal_def closeModal_def style_of_set_style)
  show "\<exists>d. run_calls eid [Close, Open] doc = Inr d \<and> style_of eid ''display'' d = Some ''flex''"
    using assms by (simp add: openModal_def closeModal_def style_of_set_style)
qed

theorem modal_calls_idempotent_last_wins_witness:
  "getElementById ''loginModal'' login_page = Some 1
   \<and> (\<exists>d. openModal ''loginModal'' login_page = Inr d \<and> openModal ''loginModal'' d = Inr d)
   \<and> (\<exists>d. closeModal ''loginModal'' login_page = Inr d \<and> closeModal ''loginModal'' d = Inr d)
   \<and> run_calls ''loginModal'' [Open, Close, Close, Open] login_page
       = openModal ''loginModal'' login_page
   \<and> (\<exists>d. run_calls ''loginModal'' [Open, Close, Close, Open] login_page = Inr d
           \<and> style_of ''loginModal'' ''display'' d = Some ''flex'')
   \<and> (\<exists>d. run_calls ''loginModal'' [Open, Close] login_page = Inr d
           \<and> style_of ''loginModal'' ''display'' d = Some ''none'')
   \<and> (\<exists>d. run_calls ''loginModal'' [Close, Open] login_page = Inr d
           \<and> style_of ''loginModal'' ''display'' d = Some ''flex'')"
proof -
  have found: "getElementById ''loginModal'' login_page = Some 1"
    by (simp add: getElementById_def login_page_def)
  show ?thesis
    using found
      modal_calls_idempotent_last_wins [OF found, of "[Open, Close, Close, Open]"]
    by (auto simp del: run_calls.simps)
qed

section \<open>The buttons\<close>

text \<open>
  C7. On every document the listener ends without an error. A login button that exists
  then carries the handler that opens \<open>''loginModal''\<close>, a signup button that exists the
  one that opens \<open>''signupModal''\<close>, and activating the button runs that call; with
  neither button the document is left as it was.
\<close>

theorem onDOMContentLoaded_wires_buttons:
  "\<exists>doc'. onDOMContentLoaded doc = Inr doc'
      \<and> (\<forall>k. getElementById ''loginBtn'' doc = Some k \<longrightarrow>
             onclick (doc' ! k) = Some (OpenModalClosure ''loginModal'')
             \<and> (\<forall>ext. click ext k doc' = openModal ''loginModal'' doc'))
      \<and> (\<forall>k. getElementById ''signupBtn'' doc = Some k \<longrightarrow>
             onclick (doc' ! k) = Some (OpenModalClosure ''signupModal'')
             \<and> (\<forall>ext. click ext k doc' = openModal ''signupModal'' doc'))
      \<and> (getElementById ''loginBtn'' doc = None \<and> getElementById ''signupBtn'' doc = None
            \<longrightarrow> doc' = doc)"
proof (cases "getElementById ''loginBtn'' doc")
  case None
  note login = None
  show ?thesis
  proof (cases "getElementById ''signupBtn'' doc")
    case None
    with login show ?thesis by (simp add: onDOMContentLoaded_def)
  next
    case (Some j)
    with login show ?thesis
      by (simp add: onDOMContentLoaded_def click_def nth_set_onclick_same getElementById_bound)
  qed
next
  case (Some k)
  note login = Some
  have kb: "k < length doc" by (rule getElementById_bound [OF login])
  show ?thesis
  proof (cases "getElementById ''signupBtn'' doc")
    case None
    with login kb show ?thesis
      by (simp add: onDOMContentLoaded_def click_def nth_set_onclick_same)
  next
    case (Some j)
    have jb: "j < length doc" by (rule getElementById_bound [OF Some])
    have "ident (doc ! k) = ''loginBtn''" by (rule getElementById_ident [OF login])
    moreover have "ident (doc ! j) = ''signupBtn''" by (rule getElementById_ident [OF Some])
    ultimately have ne: "k \<noteq> j" by auto
    with login Some kb jb show ?thesis
      by (simp add: onDOMContentLoaded_def click_def nth_set_onclick_same nth_set_onclick_other)
  qed
qed

theorem onDOMContentLoaded_wires_buttons_witness:
  "getElementById ''loginBtn'' login_page = Some 0
   \<and> getElementById ''signupBtn'' login_page = None
   \<and> (\<exists>doc'. onDOMContentLoaded login_page = Inr doc'
          \<and> onclick (doc' ! 0) = Some (OpenModalClosure ''loginModal'')
          \<and> click (\<lambda>n d. Inr d) 0 doc' = openModal ''loginModal'' doc')
   \<and> getElementById ''signupBtn'' signup_page = Some 0
   \<and> getElementById ''loginBtn'' signup_page = None
   \<and> (\<exists>doc'. onDOMContentLoaded signup_page = Inr doc'
          \<and> onclick (doc' ! 0) = Some (OpenModalClosure ''signupModal'')
          \<and> click (\<lambda>n d. Inr d) 0 doc' = openModal ''signupModal'' doc')
   \<and> getElementById ''loginBtn'' [] = None \<and> getElementById ''signupBtn'' [] = None
   \<and> onDOMContentLoaded [] = Inr []"
proof -
  have l: "getElementById ''loginBtn'' login_page = Some 0"
      "getElementById ''signupBtn'' login_page = None"
    by (simp_all add: getElementById_def login_page_def)
  have s: "getElementById ''signupBtn'' signup_page = Some 0"
      "getElementById ''loginBtn'' signup_page = None"
    by (simp_all add: getElementById_def signup_page_def)
  have e: "getElementById ''loginBtn'' [] = None" "getElementById ''signupBtn'' [] = None"
    by (simp_all add: getElementById_def)
  from onDOMContentLoaded_wires_buttons [of login_page] l
  have a: "\<exists>doc'. onDOMContentLoaded login_page = Inr doc'
          \<and> onclick (doc' ! 0) = Some (OpenModalClosure ''loginModal'')
          \<and> click (\<lambda>n d. Inr d) 0 doc' = openModal ''loginModal'' doc'"
    by auto
  from onDOMContentLoaded_wires_buttons [of signup_page] s
  have b: "\<exists>doc'. onDOMContentLoaded signup_page = Inr doc'
          \<and> onclick (doc' ! 0) = Some (OpenModalClosure ''signupModal'')
          \<and> click (\<lambda>n d. Inr d) 0 doc' = openModal ''signupModal'' doc'"
    by auto
  from onDOMContentLoaded_wires_buttons [of "[]"] e
  have c: "onDOMContentLoaded [] = Inr []"
    by auto
  from l s e a b c show ?thesis by simp
qed

section \<open>Rounding keeps the sign\<close>

lemma pow2_pos: "0 < pow2 e"
  by (simp add: pow2_def)

lemma round_half_even_nonneg: "0 \<le> x \<Longrightarrow> 0 \<le> round_half_even x"
  by (simp add: round_half_even_def Let_def)

lemma round_mag_nonneg: "0 \<le> q \<Longrightarrow> round_mag q = Some r \<Longrightarrow> 0 \<le> r"
  by (auto simp: round_mag_def Let_def pow2_pos less_imp_le round_half_even_nonneg split: if_splits)

lemma round_double_pos_cases:
  "0 \<le> q \<Longrightarrow> round_double False q = PosInf \<or> (\<exists>r\<ge>0. round_double False q = Fin r)"
  by (auto simp: round_double_def signed_inf_def signed_zero_def split: option.splits dest: round_mag_nonneg)

lemma js_le_zero_iff:
  "js_le (Fin 0) v \<longleftrightarrow> v = PosInf \<or> v = NegZero \<or> (\<exists>r\<ge>0. v = Fin r)"
  by (cases v) (auto simp: js_le_def js_lt_def finite_value_def)

lemma js_lt_zero_iff:
  "js_lt (Fin 0) v \<longleftrightarrow> v = PosInf \<or> (\<exists>r>0. v = Fin r)"
  by (cases v) (auto simp: js_lt_def finite_value_def)

lemma Math_min_pair:
  "Math_min [v, Fin 100] =
     (if v = NaN then NaN else if js_lt v (Fin 100) then v else Fin 100)"
  by (cases v) (auto simp: Math_min_def js_lt_def finite_value_def)


lemma percentage_cases:
  "percentage c t =
     (let v = js_mul (js_div c t) (Fin 100)
      in if v = NaN then NaN else if js_lt v (Fin 100) then v else Fin 100)"
  by (simp add: percentage_def Math_min_pair Let_def)

lemma percentage_upper: "percentage c t = NaN \<or> js_le (percentage c t) (Fin 100)"
proof -
  define v where "v = js_mul (js_div c t) (Fin 100)"
  have p: "percentage c t = (if v = NaN then NaN else if js_lt v (Fin 100) then v else Fin 100)"
    by (simp add: percentage_cases v_def Let_def)
  show ?thesis
    by (cases v) (auto simp: p js_le_def js_lt_def finite_value_def)
qed

lemma js_div_nonneg:
  assumes "js_le (Fin 0) c" and "js_lt (Fin 0) t" and "\<not> (is_infinite c \<and> is_infinite t)"
  shows "js_le (Fin 0) (js_div c t)"
proof -
  from assms(2) have t: "t = PosInf \<or> (\<exists>r>0. t = Fin r)"
    by (simp add: js_lt_zero_iff)
  from assms(1) have c: "c = PosInf \<or> c = NegZero \<or> (\<exists>r\<ge>0. c = Fin r)"
    by (simp add: js_le_zero_iff)
  from t show ?thesis
  proof
    assume tp: "t = PosInf"
    with assms(3) c have "c = NegZero \<or> (\<exists>r\<ge>0. c = Fin r)"
      by (auto simp: is_infinite_def)
    with tp show ?thesis
      by (auto simp: js_div_def is_infinite_def is_negative_def signed_zero_def js_le_zero_iff)
  next
    assume "\<exists>r>0. t = Fin r"
    then obtain r where r: "0 < r" "t = Fin r" by blast
    from c show ?thesis
    proof (elim disjE exE conjE)
      assume "c = PosInf"
      with r show ?thesis
        by (simp add: js_div_def is_infinite_def is_negative_def signed_inf_def js_le_zero_iff)
    next
      assume "c = NegZero"
      with r show ?thesis
        by (simp add: js_div_def is_infinite_def is_negative_def is_zero_def signed_zero_def
            js_le_zero_iff)
    next
      fix q assume q: "0 \<le> q" "c = Fin q"
      show ?thesis
      proof (cases "q = 0")
        case True
        with q r show ?thesis
          by (simp add: js_div_def is_infinite_def is_negative_def is_zero_def signed_zero_def
              js_le_zero_iff)
      next
        case False
        with q r have "js_div c t = round_double False (q / r)"
          by (simp add: js_div_def is_infinite_def is_negative_def is_zero_def magnitude_def)
        moreover from q r have "0 \<le> q / r" by simp
        ultimately show ?thesis
          using round_double_pos_cases [of "q / r"] by (auto simp: js_le_zero_iff)
      qed
    qed
  qed
qed

lemma js_mul_100_nonneg:
  assumes "js_le (Fin 0) v"
  shows "js_le (Fin 0) (js_mul v (Fin 100))"
proof -
  from assms have "v = PosInf \<or> v = NegZero \<or> (\<exists>r\<ge>0. v = Fin r)"
    by (simp add: js_le_zero_iff)
  then show ?thesis
  proof (elim disjE exE conjE)
    assume "v = PosInf"
    then show ?thesis
      by (simp add: js_mul_def is_infinite_def is_negative_def is_zero_def signed_inf_def
          js_le_zero_iff)
  next
    assume "v = NegZero"
    then show ?thesis
      by (simp add: js_mul_def is_infinite_def is_negative_def is_zero_def signed_zero_def
          js_le_zero_iff)
  next
    fix r assume r: "0 \<le> r" "v = Fin r"
    show ?thesis
    proof (cases "r = 0")
      case True
      with r show ?thesis
        by (simp add: js_mul_def is_infinite_def is_negative_def is_zero_def signed_zero_def
            js_le_zero_iff)
    next
      case False
      with r have "js_mul v (Fin 100) = round_double False (r * 100)"
        by (simp add: js_mul_def is_infinite_def is_negative_def is_zero_def magnitude_def)
      moreover from r have "0 \<le> r * 100" by simp
      ultimately show ?thesis
        using round_double_pos_cases [of "r * 100"] by (auto simp: js_le_zero_iff)
    qed
  qed
qed

lemma percentage_lower:
  assumes "js_le (Fin 0) c" and "js_lt (Fin 0) t" and "\<not> (is_infinite c \<and> is_infinite t)"
  shows "js_le (Fin 0) (percentage c t)"
proof -
  define v where "v = js_mul (js_div c t) (Fin 100)"
  have "js_le (Fin 0) v"
    unfolding v_def by (rule js_mul_100_nonneg [OF js_div_nonneg [OF assms]])
  then have v: "v = PosInf \<or> v = NegZero \<or> (\<exists>r\<ge>0. v = Fin r)"
    by (simp add: js_le_zero_iff)
  have p: "percentage c t = (if v = NaN then NaN else if js_lt v (Fin 100) then v else Fin 100)"
    by (simp add: percentage_cases v_def Let_def)
  from v show ?thesis
    by (auto simp: p js_le_zero_iff)
qed

lemma js_lt_numeral [simp]:
  "js_lt (Fin a) (Fin b) \<longleftrightarrow> a < b"
  by (simp add: js_lt_def finite_value_def)

lemma js_le_numeral [simp]:
  "js_le (Fin a) (Fin b) \<longleftrightarrow> a \<le> b"
  by (auto simp: js_le_def)

section \<open>The rounding is to the nearest double\<close>

text \<open>
  \<open>floor_log2\<close> is the exponent of the binade, and \<open>round_half_even\<close> the nearest
  integer with ties to the even one. So a magnitude that \<open>round_mag\<close> returns is a
  multiple \<open>n * 2 ^ (e - 52)\<close> of the unit of its binade with \<open>n \<le> 2 ^ 53\<close>, at most
  half a unit from the exact value, and below \<open>2 ^ 1024\<close>.
\<close>

lemma pow2_powi: "pow2 e = 2 powi e"
  by (simp add: pow2_def power_int_def inverse_eq_divide power_one_over)

lemma pow2_mono: "a \<le> b \<Longrightarrow> pow2 a \<le> pow2 b"
  by (simp add: pow2_powi power_int_increasing)

lemma floor_log2_lower:
  assumes "0 < q"
  shows "pow2 (floor_log2 q) \<le> q"
proof (cases "1 \<le> q")
  case True
  define n where "n = \<lfloor>q\<rfloor>"
  have n: "0 < n" using True by (simp add: n_def)
  have "0 \<le> bitlen n - 1"
    using n bitlen_eq_zero_iff [of n] bitlen_nonneg [of n] by linarith
  then have "pow2 (floor_log2 q) = 2 ^ nat (bitlen n - 1)"
    using True by (simp add: floor_log2_def pow2_def n_def)
  also have "\<dots> \<le> of_int n"
    using bitlen_bounds [OF n] by simp
  also have "\<dots> \<le> q" by (simp add: n_def)
  finally show ?thesis .
next
  case False
  define m where "m = \<lceil>1 / q\<rceil>"
  define c where "c = bitlen (m - 1)"
  from False assms have r: "1 < 1 / q" by simp
  then have m: "0 < m - 1" by (simp add: m_def less_ceiling_iff)
  have c0: "0 \<le> c" by (simp add: c_def bitlen_nonneg)
  have "m - 1 < 2 ^ nat c" using bitlen_bounds [OF m] by (simp add: c_def)
  then have "m \<le> 2 ^ nat c" by simp
  then have "(of_int m :: rat) \<le> 2 ^ nat c" by simp
  moreover have "1 / q \<le> of_int m" by (simp add: m_def)
  ultimately have "1 / q \<le> 2 ^ nat c" by (rule order_trans [rotated])
  with assms have "1 / 2 ^ nat c \<le> q"
    by (simp add: field_simps)
  moreover have "pow2 (floor_log2 q) = 1 / 2 ^ nat c"
    using False c0 by (auto simp: floor_log2_def pow2_def c_def m_def)
  ultimately show ?thesis by simp
qed

lemma floor_log2_upper:
  assumes "0 < q"
  shows "q < pow2 (floor_log2 q + 1)"
proof (cases "1 \<le> q")
  case True
  define n where "n = \<lfloor>q\<rfloor>"
  have n: "0 < n" using True by (simp add: n_def)
  have b: "0 \<le> bitlen n" by (rule bitlen_nonneg)
  have "n < 2 ^ nat (bitlen n)" using bitlen_bounds [OF n] by simp
  then have "n + 1 \<le> 2 ^ nat (bitlen n)" by simp
  then have "(of_int (n + 1) :: rat) \<le> 2 ^ nat (bitlen n)"
    by (simp only: of_int_le_numeral_power_cancel_iff)
  moreover have "q < of_int (n + 1)"
    unfolding n_def by (metis floor_less_iff less_add_one)
  ultimately have "q < 2 ^ nat (bitlen n)" by (rule less_le_trans [rotated])
  moreover have "pow2 (floor_log2 q + 1) = 2 ^ nat (bitlen n)"
    using True b by (simp add: floor_log2_def pow2_def n_def)
  ultimately show ?thesis by simp
next
  case False
  define m where "m = \<lceil>1 / q\<rceil>"
  define c where "c = bitlen (m - 1)"
  from False assms have r: "1 < 1 / q" by simp
  then have m: "0 < m - 1" by (simp add: m_def less_ceiling_iff)
  have c1: "1 \<le> c"
    using m bitlen_eq_zero_iff [of "m - 1"] bitlen_nonneg [of "m - 1"] unfolding c_def by linarith
  have "2 ^ nat (c - 1) \<le> m - 1" using bitlen_bounds [OF m] by (simp add: c_def)
  then have "(2 ^ nat (c - 1) :: rat) \<le> of_int (m - 1)"
    by (simp only: numeral_power_le_of_int_cancel_iff)
  moreover have "of_int (m - 1) < 1 / q"
    using ceiling_correct [of "1 / q"] by (simp add: m_def)
  ultimately have "2 ^ nat (c - 1) < 1 / q" by (rule le_less_trans)
  with assms have "q < 1 / 2 ^ nat (c - 1)"
    by (simp add: field_simps)
  moreover have "pow2 (floor_log2 q + 1) = 1 / 2 ^ nat (c - 1)"
  proof -
    have "floor_log2 q + 1 = - (c - 1)"
      using False by (simp add: floor_log2_def c_def m_def)
    then show ?thesis
      using c1 by (simp add: pow2_def)
  qed
  ultimately show ?thesis by simp
qed

lemma floor_log2_ge_iff:
  assumes "0 < q"
  shows "e \<le> floor_log2 q \<longleftrightarrow> pow2 e \<le> q"
proof
  assume "e \<le> floor_log2 q"
  then have "pow2 e \<le> pow2 (floor_log2 q)" by (rule pow2_mono)
  with floor_log2_lower [OF assms] show "pow2 e \<le> q" by simp
next
  assume h: "pow2 e \<le> q"
  show "e \<le> floor_log2 q"
  proof (rule ccontr)
    assume "\<not> e \<le> floor_log2 q"
    then have "floor_log2 q + 1 \<le> e" by simp
    then have "pow2 (floor_log2 q + 1) \<le> pow2 e" by (rule pow2_mono)
    with floor_log2_upper [OF assms] h show False by simp
  qed
qed

lemma pow2_add: "pow2 (a + b) = pow2 a * pow2 b"
  by (simp add: pow2_powi power_int_add)

lemma round_half_even_error: "\<bar>of_int (round_half_even x) - x\<bar> \<le> 1 / 2"
proof -
  have "of_int \<lfloor>x\<rfloor> \<le> x" "x < of_int \<lfloor>x\<rfloor> + 1" by linarith+
  then show ?thesis
    by (auto simp: round_half_even_def Let_def abs_le_iff)
qed

lemma round_half_even_tie:
  assumes "\<bar>of_int (round_half_even x) - x\<bar> = 1 / 2"
  shows "even (round_half_even x)"
proof -
  define f where "f = \<lfloor>x\<rfloor>"
  define r where "r = x - of_int f"
  have r: "0 \<le> r" "r < 1" unfolding r_def f_def by linarith+
  consider "r < 1 / 2" | "1 / 2 < r" | "r = 1 / 2" by linarith
  then show ?thesis
  proof cases
    case 1
    then have "round_half_even x = f"
      by (simp add: round_half_even_def Let_def f_def r_def)
    with assms have "\<bar>- r\<bar> = 1 / 2" by (simp add: r_def)
    with r 1 show ?thesis by simp
  next
    case 2
    then have "round_half_even x = f + 1"
      by (simp add: round_half_even_def Let_def f_def r_def)
    with assms have "\<bar>1 - r\<bar> = 1 / 2" by (simp add: r_def algebra_simps)
    with r 2 show ?thesis by simp
  next
    case 3
    then show ?thesis
      by (simp add: round_half_even_def Let_def f_def r_def)
  qed
qed

lemma round_half_even_le: "x \<le> of_int k \<Longrightarrow> round_half_even x \<le> k"
proof -
  assume h: "x \<le> of_int k"
  have "\<bar>of_int (round_half_even x) - x\<bar> \<le> 1 / 2" by (rule round_half_even_error)
  with h have "of_int (round_half_even x) \<le> (of_int k :: rat) + 1 / 2" by linarith
  then have "of_int (round_half_even x) < (of_int (k + 1) :: rat)" by simp
  then have "round_half_even x < k + 1" by (simp only: of_int_less_iff)
  then show ?thesis by simp
qed

lemma round_half_even_ge: "of_int k \<le> x \<Longrightarrow> k \<le> round_half_even x"
proof -
  assume h: "of_int k \<le> x"
  have "\<bar>of_int (round_half_even x) - x\<bar> \<le> 1 / 2" by (rule round_half_even_error)
  with h have "(of_int k :: rat) - 1 / 2 \<le> of_int (round_half_even x)" by linarith
  then have "(of_int (k - 1) :: rat) < of_int (round_half_even x)" by simp
  then have "k - 1 < round_half_even x" by (simp only: of_int_less_iff)
  then show ?thesis by simp
qed

lemma round_mag_grid:
  assumes "0 < q" and "round_mag q = Some r"
  defines "e \<equiv> max (floor_log2 q) (- 1022)"
  defines "n \<equiv> round_half_even (q / pow2 (e - 52))"
  shows "r = of_int n * pow2 (e - 52)" and "0 \<le> n" and "n \<le> 2 ^ 53"
    and "\<bar>r - q\<bar> \<le> pow2 (e - 52) / 2" and "r < pow2 1024"
proof -
  let ?ulp = "pow2 (e - 52)"
  have ulp: "0 < ?ulp" by (rule pow2_pos)
  from assms(1,2) have r: "r = of_int n * ?ulp" and nov: "\<not> 1024 \<le> floor_log2 r"
    by (auto simp: round_mag_def Let_def e_def n_def split: if_splits)
  show "r = of_int n * ?ulp" by (rule r)
  from assms(1) ulp have "0 \<le> q / ?ulp" by simp
  then show n0: "0 \<le> n" unfolding n_def by (rule round_half_even_nonneg)
  have "q < pow2 (floor_log2 q + 1)" by (rule floor_log2_upper [OF assms(1)])
  also have "\<dots> \<le> pow2 (e + 1)" by (rule pow2_mono) (simp add: e_def)
  also have "\<dots> = pow2 53 * ?ulp" using pow2_add [of 53 "e - 52"] by (simp add: add.commute)
  finally have "q / ?ulp < pow2 53" using ulp by (simp add: field_simps)
  then have "q / ?ulp \<le> of_int (2 ^ 53)" by (simp add: pow2_def)
  then show "n \<le> 2 ^ 53" unfolding n_def by (rule round_half_even_le)
  have "\<bar>of_int n - q / ?ulp\<bar> \<le> 1 / 2" unfolding n_def by (rule round_half_even_error)
  then have "\<bar>of_int n - q / ?ulp\<bar> * ?ulp \<le> 1 / 2 * ?ulp"
    using ulp by (intro mult_right_mono) simp_all
  moreover have "\<bar>of_int n - q / ?ulp\<bar> * ?ulp = \<bar>r - q\<bar>"
  proof -
    have "\<bar>of_int n - q / ?ulp\<bar> * ?ulp = \<bar>(of_int n - q / ?ulp) * ?ulp\<bar>"
      using ulp by (simp add: abs_mult)
    also have "(of_int n - q / ?ulp) * ?ulp = r - q"
      using ulp by (simp add: r field_simps)
    finally show ?thesis .
  qed
  ultimately show "\<bar>r - q\<bar> \<le> ?ulp / 2" by simp
  show "r < pow2 1024"
  proof (cases "r = 0")
    case True
    then show ?thesis by (simp add: pow2_pos)
  next
    case False
    with n0 r ulp have "0 < r" by (simp add: zero_less_mult_iff less_le)
    from floor_log2_ge_iff [OF this, of 1024] nov show ?thesis by simp
  qed
qed

section \<open>Values of the percentage\<close>

text \<open>
  Each of these is two roundings. \<open>29 / 100\<close> is not a double, and the product of the
  nearest double with \<open>100\<close> rounds to the double below \<open>29\<close>, printed
  \<^verbatim>\<open>28.999999999999996\<close>.
\<close>

lemma percentage_minus1_1: "percentage (Fin (- 1)) (Fin 1) = Fin (- 100)"
  by code_simp

lemma percentage_minus50_100: "percentage (Fin (- 50)) (Fin 100) = Fin (- 50)"
  by code_simp

lemma percentage_29_100:
  "percentage (Fin 29) (Fin 100) = Fin (8162774324609023 / 281474976710656)"
  by code_simp

lemma percentage_30_100: "percentage (Fin 30) (Fin 100) = Fin 30"
  by code_simp

lemma percentage_69_100: "percentage (Fin 69) (Fin 100) = Fin 69"
  by code_simp

lemma percentage_70_100: "percentage (Fin 70) (Fin 100) = Fin 70"
  by code_simp

lemma percentage_150_100: "percentage (Fin 150) (Fin 100) = Fin 100"
  by code_simp

lemma percentage_1_4: "percentage (Fin 1) (Fin 4) = Fin 25"
  by code_simp

lemma percentage_1_2: "percentage (Fin 1) (Fin 2) = Fin 50"
  by code_simp

lemma percentage_3_4: "percentage (Fin 3) (Fin 4) = Fin 75"
  by code_simp

lemma number_to_string_100: "number_to_string (Fin 100) = ''100''"
  by code_simp

lemma number_to_string_minus100: "number_to_string (Fin (- 100)) = ''-100''"
  by code_simp

lemma round_double_tenth:
  "round_double False (1 / 10) = Fin (3602879701896397 / 36028797018963968)"
  by code_simp

lemma number_to_string_percentage_29_100:
  "number_to_string (percentage (Fin 29) (Fin 100)) = ''28.999999999999996''"
  by code_simp

lemma usage_page_found: "getElementById ''usageBar'' usage_page = Some 1"
  by (simp add: getElementById_def usage_page_def)

lemma js_mul_div_29_100:
  "js_mul (js_div (Fin 29) (Fin 100)) (Fin 100) = Fin (8162774324609023 / 281474976710656)"
  by code_simp

lemma js_mul_div_150_100: "js_mul (js_div (Fin 150) (Fin 100)) (Fin 100) = Fin 150"
  by code_simp









section \<open>The usage bar: what a call writes\<close>

lemma updateUsageBar_found:
  assumes "getElementById ''usageBar'' doc = Some k"
  shows "updateUsageBar c t doc =
           Inr (set_style k ''backgroundColor'' (tier_color (percentage c t))
                  (set_style k ''width'' (number_to_string (percentage c t) @ ''%'') doc))"
  using assms by (simp add: updateUsageBar_def tier_color_def Let_def)

lemma usage_style_width:
  assumes "getElementById ''usageBar'' doc = Some k"
  shows "usage_style ''width'' c t doc = Some (number_to_string (percentage c t) @ ''%'')"
  using assms getElementById_bound [OF assms]
  by (simp add: usage_style_def updateUsageBar_found style_of_def nth_set_style_same)

lemma usage_style_color:
  assumes "getElementById ''usageBar'' doc = Some k"
  shows "usage_style ''backgroundColor'' c t doc = Some (tier_color (percentage c t))"
  using assms getElementById_bound [OF assms]
  by (simp add: usage_style_def updateUsageBar_found style_of_def nth_set_style_same)

lemma updateUsageBar_assigns:
  assumes "getElementById ''usageBar'' doc = Some k"
  shows "updateUsageBar c t doc =
           Inr (set_style k ''backgroundColor'' (tier_color (percentage c t))
                  (set_style k ''width'' (assigned_width c t) doc))"
  by (simp add: updateUsageBar_found [OF assms] assigned_width_def)



lemma tier_color_safe: "js_lt p (Fin 30) \<Longrightarrow> tier_color p = ''#28a745''"
  by (simp add: tier_color_def)

lemma tier_color_warning:
  "js_le (Fin 30) p \<Longrightarrow> js_lt p (Fin 70) \<Longrightarrow> tier_color p = ''#ffc107''"
  by (simp add: tier_color_def js_le_def)

lemma tier_color_critical: "js_le (Fin 70) p \<Longrightarrow> tier_color p = ''#dc3545''"
  by (cases p) (auto simp: tier_color_def js_le_def js_lt_def finite_value_def)

text \<open>
  C6. Without a usage bar in the document, \<open>updateUsageBar\<close> ends without an error and
  leaves the document as it was, whatever the two numbers are.
\<close>

theorem updateUsageBar_absent_noop:
  "getElementById ''usageBar'' doc = None \<Longrightarrow> updateUsageBar current tot doc = Inr doc"
  by (simp add: updateUsageBar_def)

theorem updateUsageBar_absent_noop_witness:
  "getElementById ''usageBar'' login_page = None
   \<and> updateUsageBar (Fin 150) (Fin 100) login_page = Inr login_page
   \<and> updateUsageBar NaN (Fin 0) [] = Inr []"
proof -
  have a: "getElementById ''usageBar'' login_page = None"
    by (simp add: getElementById_def login_page_def)
  have b: "getElementById ''usageBar'' [] = None"
    by (simp add: getElementById_def)
  show ?thesis
    using a updateUsageBar_absent_noop [OF a, of "Fin 150" "Fin 100"]
      updateUsageBar_absent_noop [OF b, of NaN "Fin 0"]
    by simp
qed

text \<open>
  C8. \<open>updateUsageBar\<close> never raises and returns nothing but the document: every element
  other than the located usage bar is unchanged, and of the usage bar the ID, the handler,
  the other attributes and every style property other than \<^verbatim>\<open>width\<close> and
  \<^verbatim>\<open>backgroundColor\<close> are unchanged.
\<close>

theorem updateUsageBar_frame:
  "\<exists>doc'. updateUsageBar current tot doc = Inr doc' \<and> length doc' = length doc
      \<and> (\<forall>j. getElementById ''usageBar'' doc \<noteq> Some j \<longrightarrow> doc' ! j = doc ! j)
      \<and> (\<forall>k. getElementById ''usageBar'' doc = Some k \<longrightarrow>
             ident (doc' ! k) = ident (doc ! k)
             \<and> onclick (doc' ! k) = onclick (doc ! k)
             \<and> attrs (doc' ! k) = attrs (doc ! k)
             \<and> (\<forall>p. p \<noteq> ''width'' \<and> p \<noteq> ''backgroundColor'' \<longrightarrow>
                    style (doc' ! k) p = style (doc ! k) p))"
proof (cases "getElementById ''usageBar'' doc")
  case None
  then show ?thesis by (simp add: updateUsageBar_def)
next
  case (Some k)
  have kb: "k < length doc" by (rule getElementById_bound [OF Some])
  show ?thesis
    using Some kb
    by (simp add: updateUsageBar_found nth_set_style_same nth_set_style_other)
qed

theorem updateUsageBar_frame_witness:
  "\<exists>doc'. updateUsageBar (Fin 45) (Fin 100) usage_page = Inr doc'
      \<and> length doc' = 2
      \<and> doc' ! 0 = usage_page ! 0
      \<and> ident (doc' ! 1) = ''usageBar''
      \<and> onclick (doc' ! 1) = None
      \<and> attrs (doc' ! 1) ''class'' = Some ''bar''
      \<and> style (doc' ! 1) ''height'' = Some ''8px''"
proof -
  have found: "getElementById ''usageBar'' usage_page = Some 1"
    by (simp add: getElementById_def usage_page_def)
  obtain doc' where d: "updateUsageBar (Fin 45) (Fin 100) usage_page = Inr doc'"
      "length doc' = length usage_page"
      "\<forall>j. getElementById ''usageBar'' usage_page \<noteq> Some j \<longrightarrow> doc' ! j = usage_page ! j"
      "\<forall>k. getElementById ''usageBar'' usage_page = Some k \<longrightarrow>
             ident (doc' ! k) = ident (usage_page ! k)
             \<and> onclick (doc' ! k) = onclick (usage_page ! k)
             \<and> attrs (doc' ! k) = attrs (usage_page ! k)
             \<and> (\<forall>p. p \<noteq> ''width'' \<and> p \<noteq> ''backgroundColor'' \<longrightarrow>
                    style (doc' ! k) p = style (usage_page ! k) p)"
    using updateUsageBar_frame [of "Fin 45" "Fin 100" usage_page] by blast
  from d(3) found have "doc' ! 0 = usage_page ! 0" by simp
  moreover from d(4) found have
    "ident (doc' ! 1) = ident (usage_page ! 1)"
    "onclick (doc' ! 1) = onclick (usage_page ! 1)"
    "attrs (doc' ! 1) = attrs (usage_page ! 1)"
    "style (doc' ! 1) ''height'' = style (usage_page ! 1) ''height''"
    by simp_all
  ultimately show ?thesis
    using d(1,2) by (simp add: usage_page_def)
qed

section \<open>The usage bar: the range of the percentage\<close>

text \<open>
  C2 as stated, for inputs of any sign: the percentage written as the width lies in
  \<open>[0, 100]\<close>. It fails at \<open>current = - 1\<close>, \<open>total = 1\<close>: the percentage is \<open>- 100\<close> and
  the width written is \<^verbatim>\<open>-100%\<close>.
\<close>

theorem percentage_below_zero_counterexample:
  "percentage (Fin (- 1)) (Fin 1) = Fin (- 100)
   \<and> \<not> js_le (Fin 0) (percentage (Fin (- 1)) (Fin 1))
   \<and> usage_style ''width'' (Fin (- 1)) (Fin 1) usage_page = Some ''-100%''"
  by (simp add: percentage_minus1_1 usage_style_width [OF usage_page_found]
      number_to_string_minus100)

text \<open>
  C2, amended. Only the upper bound is clamped: for every pair of Numbers the percentage
  is NaN or at most \<open>100\<close>. It lies in \<open>[0, 100]\<close> when \<open>current \<ge> 0\<close>, \<open>total > 0\<close> and
  the two are not both infinite. The width written is that percentage followed by
  \<^verbatim>\<open>%\<close>.
\<close>

theorem percentage_clamped_above:
  "(percentage current tot = NaN \<or> js_le (percentage current tot) (Fin 100))
   \<and> (js_le (Fin 0) current \<and> js_lt (Fin 0) tot \<and> \<not> (is_infinite current \<and> is_infinite tot)
        \<longrightarrow> js_le (Fin 0) (percentage current tot) \<and> js_le (percentage current tot) (Fin 100))
   \<and> (\<forall>k. getElementById ''usageBar'' doc = Some k \<longrightarrow>
          usage_style ''width'' current tot doc
            = Some (number_to_string (percentage current tot) @ ''%''))"
proof (intro conjI impI allI)
  show "percentage current tot = NaN \<or> js_le (percentage current tot) (Fin 100)"
    by (rule percentage_upper)
next
  assume h: "js_le (Fin 0) current \<and> js_lt (Fin 0) tot
             \<and> \<not> (is_infinite current \<and> is_infinite tot)"
  then have lo: "js_le (Fin 0) (percentage current tot)"
    by (intro percentage_lower) simp_all
  then show "js_le (Fin 0) (percentage current tot)" .
  from lo have "percentage current tot \<noteq> NaN" by (auto simp: js_le_def)
  with percentage_upper [of current tot]
  show "js_le (percentage current tot) (Fin 100)" by simp
next
  fix k assume "getElementById ''usageBar'' doc = Some k"
  then show "usage_style ''width'' current tot doc
               = Some (number_to_string (percentage current tot) @ ''%'')"
    by (rule usage_style_width)
qed

theorem percentage_clamped_above_witness:
  "js_le (Fin 0) (Fin 150) \<and> js_lt (Fin 0) (Fin 100)
   \<and> \<not> (is_infinite (Fin 150) \<and> is_infinite (Fin 100))
   \<and> getElementById ''usageBar'' usage_page = Some 1
   \<and> js_le (Fin 0) (percentage (Fin 150) (Fin 100))
   \<and> js_le (percentage (Fin 150) (Fin 100)) (Fin 100)
   \<and> usage_style ''width'' (Fin 150) (Fin 100) usage_page = Some ''100%''"
  using percentage_clamped_above [of "Fin 150" "Fin 100" usage_page]
  by (simp add: is_infinite_def usage_page_found percentage_150_100 number_to_string_100)

text \<open>
  C3 as stated, for every \<open>current\<close> and every \<open>total > 0\<close>: the percentage is in
  \<open>[0, 100]\<close>. It fails at \<open>current = - 50\<close>, \<open>total = 100\<close>.
\<close>

theorem percentage_total_positive_counterexample:
  "js_lt (Fin 0) (Fin 100)
   \<and> percentage (Fin (- 50)) (Fin 100) = Fin (- 50)
   \<and> \<not> js_le (Fin 0) (percentage (Fin (- 50)) (Fin 100))"
  by (simp add: percentage_minus50_100)

text \<open>
  C3, amended. For \<open>total > 0\<close> the percentage is the smaller of \<open>(current / total) * 100\<close>
  and \<open>100\<close>, the quotient and the product each rounded to a double (and NaN when the
  product is NaN); it lies in \<open>[0, 100]\<close> when moreover \<open>current \<ge> 0\<close> and the two are
  not both infinite.
\<close>

theorem percentage_total_positive:
  assumes "js_lt (Fin 0) tot"
  shows "(js_lt (js_mul (js_div current tot) (Fin 100)) (Fin 100)
            \<longrightarrow> percentage current tot = js_mul (js_div current tot) (Fin 100))
       \<and> (js_le (Fin 100) (js_mul (js_div current tot) (Fin 100))
            \<longrightarrow> percentage current tot = Fin 100)
       \<and> (js_mul (js_div current tot) (Fin 100) = NaN \<longrightarrow> percentage current tot = NaN)
       \<and> (js_le (Fin 0) current \<and> \<not> (is_infinite current \<and> is_infinite tot)
            \<longrightarrow> js_le (Fin 0) (percentage current tot)
                \<and> js_le (percentage current tot) (Fin 100))"
proof (intro conjI impI)
  assume "js_lt (js_mul (js_div current tot) (Fin 100)) (Fin 100)"
  then show "percentage current tot = js_mul (js_div current tot) (Fin 100)"
    by (auto simp: percentage_cases Let_def js_lt_def)
next
  assume "js_le (Fin 100) (js_mul (js_div current tot) (Fin 100))"
  then show "percentage current tot = Fin 100"
    by (auto simp: percentage_cases Let_def js_le_def)
next
  assume "js_mul (js_div current tot) (Fin 100) = NaN"
  then show "percentage current tot = NaN"
    by (simp add: percentage_cases)
next
  assume h: "js_le (Fin 0) current \<and> \<not> (is_infinite current \<and> is_infinite tot)"
  with assms have lo: "js_le (Fin 0) (percentage current tot)"
    by (intro percentage_lower) simp_all
  then show "js_le (Fin 0) (percentage current tot)" .
  from lo have "percentage current tot \<noteq> NaN" by (auto simp: js_le_def)
  with percentage_upper [of current tot]
  show "js_le (percentage current tot) (Fin 100)" by simp
qed

theorem percentage_total_positive_witness:
  "js_lt (Fin 0) (Fin 100)
   \<and> js_lt (js_mul (js_div (Fin 29) (Fin 100)) (Fin 100)) (Fin 100)
   \<and> percentage (Fin 29) (Fin 100) = js_mul (js_div (Fin 29) (Fin 100)) (Fin 100)
   \<and> js_le (Fin 100) (js_mul (js_div (Fin 150) (Fin 100)) (Fin 100))
   \<and> percentage (Fin 150) (Fin 100) = Fin 100
   \<and> js_le (Fin 0) (Fin 29) \<and> \<not> (is_infinite (Fin 29) \<and> is_infinite (Fin 100))
   \<and> js_le (Fin 0) (percentage (Fin 29) (Fin 100))
   \<and> js_le (percentage (Fin 29) (Fin 100)) (Fin 100)"
proof -
  have t: "js_lt (Fin 0) (Fin 100)" by simp
  show ?thesis
    using percentage_total_positive [OF t, of "Fin 29"]
      percentage_total_positive [OF t, of "Fin 150"]
    by (simp add: js_mul_div_29_100 js_mul_div_150_100 is_infinite_def)
qed

section \<open>The usage bar: colours\<close>

text \<open>
  C4. With the usage bar present, the colour follows the percentage: below \<open>30\<close> green
  \<^verbatim>\<open>#28a745\<close>, from \<open>30\<close> and below \<open>70\<close> amber \<^verbatim>\<open>#ffc107\<close>, from \<open>70\<close> red
  \<^verbatim>\<open>#dc3545\<close>; and of \<open>total = 100\<close>, \<open>current = 29\<close> is green, \<open>30\<close> and \<open>69\<close> are
  amber, \<open>70\<close> is red.
\<close>

theorem usage_color_tiers:
  assumes "getElementById ''usageBar'' doc = Some k"
  shows "(js_lt (percentage current tot) (Fin 30) \<longrightarrow>
            usage_style ''backgroundColor'' current tot doc = Some ''#28a745'')
       \<and> (js_le (Fin 30) (percentage current tot) \<and> js_lt (percentage current tot) (Fin 70) \<longrightarrow>
            usage_style ''backgroundColor'' current tot doc = Some ''#ffc107'')
       \<and> (js_le (Fin 70) (percentage current tot) \<longrightarrow>
            usage_style ''backgroundColor'' current tot doc = Some ''#dc3545'')
       \<and> usage_style ''backgroundColor'' (Fin 29) (Fin 100) doc = Some ''#28a745''
       \<and> usage_style ''backgroundColor'' (Fin 30) (Fin 100) doc = Some ''#ffc107''
       \<and> usage_style ''backgroundColor'' (Fin 69) (Fin 100) doc = Some ''#ffc107''
       \<and> usage_style ''backgroundColor'' (Fin 70) (Fin 100) doc = Some ''#dc3545''"
proof -
  note color = usage_style_color [OF assms]
  have "usage_style ''backgroundColor'' (Fin 29) (Fin 100) doc = Some ''#28a745''"
    by (simp add: color percentage_29_100 tier_color_def)
  moreover have "usage_style ''backgroundColor'' (Fin 30) (Fin 100) doc = Some ''#ffc107''"
    by (simp add: color percentage_30_100 tier_color_def)
  moreover have "usage_style ''backgroundColor'' (Fin 69) (Fin 100) doc = Some ''#ffc107''"
    by (simp add: color percentage_69_100 tier_color_def)
  moreover have "usage_style ''backgroundColor'' (Fin 70) (Fin 100) doc = Some ''#dc3545''"
    by (simp add: color percentage_70_100 tier_color_def)
  ultimately show ?thesis
    by (simp add: color tier_color_safe tier_color_warning tier_color_critical)
qed

theorem usage_color_tiers_witness:
  "getElementById ''usageBar'' usage_page = Some 1
   \<and> js_lt (percentage (Fin 1) (Fin 4)) (Fin 30)
   \<and> usage_style ''backgroundColor'' (Fin 1) (Fin 4) usage_page = Some ''#28a745''
   \<and> js_le (Fin 30) (percentage (Fin 1) (Fin 2)) \<and> js_lt (percentage (Fin 1) (Fin 2)) (Fin 70)
   \<and> usage_style ''backgroundColor'' (Fin 1) (Fin 2) usage_page = Some ''#ffc107''
   \<and> js_le (Fin 70) (percentage (Fin 3) (Fin 4))
   \<and> usage_style ''backgroundColor'' (Fin 3) (Fin 4) usage_page = Some ''#dc3545''
   \<and> usage_style ''backgroundColor'' (Fin 29) (Fin 100) usage_page = Some ''#28a745''
   \<and> usage_style ''backgroundColor'' (Fin 30) (Fin 100) usage_page = Some ''#ffc107''
   \<and> usage_style ''backgroundColor'' (Fin 69) (Fin 100) usage_page = Some ''#ffc107''
   \<and> usage_style ''backgroundColor'' (Fin 70) (Fin 100) usage_page = Some ''#dc3545''"
  using usage_color_tiers [OF usage_page_found, of "Fin 1" "Fin 4"]
    usage_color_tiers [OF usage_page_found, of "Fin 1" "Fin 2"]
    usage_color_tiers [OF usage_page_found, of "Fin 3" "Fin 4"]
  by (simp add: usage_page_found percentage_1_4 percentage_1_2 percentage_3_4)

section \<open>The usage bar: a total of zero\<close>




end
